theory Spec2Isabelle
  imports Main "HOL-Library.Word" "HOL-Library.Log_Nat"
begin

unbundle bit_operations_syntax

section \<open>The serial bus and its observable history\<close>

text \<open>
  The driver in \<^verbatim>\<open>motorhat.go\<close> talks to the PWM chip through the external package
  \<^verbatim>\<open>i2c\<close>: \<^verbatim>\<open>i2c.New\<close>, \<^verbatim>\<open>WriteRegister\<close>, \<^verbatim>\<open>ReadRegister\<close> and \<^verbatim>\<open>Close\<close>.  That package
  is not part of the program, so its answers are parameters of the model (the record
  \<open>world\<close>), and everything the driver asks of it is recorded, in order, in a trace.
  A trace entry records that a transaction was issued, whether or not it succeeded.
\<close>

type_synonym u8 = "8 word"

datatype error =
    Errorf string    \<comment> \<open>an error built by \<^verbatim>\<open>fmt.Errorf\<close>\<close>
  | BusError nat     \<comment> \<open>an error reported by the \<^verbatim>\<open>i2c\<close> package\<close>

datatype event =
    NewI2C u8 int    \<comment> \<open>\<^verbatim>\<open>i2c.New(addr, bus)\<close>\<close>
  | WriteReg u8 u8   \<comment> \<open>\<^verbatim>\<open>WriteRegister(reg, value)\<close>\<close>
  | ReadReg u8       \<comment> \<open>\<^verbatim>\<open>ReadRegister(reg)\<close>\<close>
  | Sleep nat        \<comment> \<open>\<^verbatim>\<open>time.Sleep\<close>, in milliseconds\<close>
  | CloseI2C         \<comment> \<open>\<^verbatim>\<open>i2c.Close()\<close>\<close>

type_synonym trace = "event list"

text \<open>
  The answers of the outside world.  Each answer may depend on everything that happened
  before (the trace so far).  \<open>None\<close> is Go's \<^verbatim>\<open>nil\<close> error.  \<open>conv_impl\<close> is the byte
  a float-to-\<^verbatim>\<open>uint8\<close> conversion yields on this platform when the value is not
  representable, which the Go specification leaves to the implementation.
\<close>

record world =
  new_err   :: "u8 \<Rightarrow> int \<Rightarrow> error option"
  write_err :: "trace \<Rightarrow> u8 \<Rightarrow> u8 \<Rightarrow> error option"
  read_val  :: "trace \<Rightarrow> u8 \<Rightarrow> u8"
  read_err  :: "trace \<Rightarrow> u8 \<Rightarrow> error option"
  conv_impl :: "int \<Rightarrow> u8"

definition WriteRegister :: "world \<Rightarrow> u8 \<Rightarrow> u8 \<Rightarrow> trace \<Rightarrow> error option \<times> trace" where
  "WriteRegister w r v tr = (write_err w tr r v, tr @ [WriteReg r v])"

definition ReadRegister :: "world \<Rightarrow> u8 \<Rightarrow> trace \<Rightarrow> (u8 \<times> error option) \<times> trace" where
  "ReadRegister w r tr = ((read_val w tr r, read_err w tr r), tr @ [ReadReg r])"

definition time_Sleep :: "nat \<Rightarrow> trace \<Rightarrow> trace" where
  "time_Sleep ms tr = tr @ [Sleep ms]"

section \<open>Constants and the motor tables\<close>

definition mode1 :: u8 where "mode1 = 0x00"
definition mode2 :: u8 where "mode2 = 0x01"
definition preescale :: u8 where "preescale = 0xFE"
definition led0OnL :: u8 where "led0OnL = 0x06"
definition led0OnH :: u8 where "led0OnH = 0x07"
definition led0OffL :: u8 where "led0OffL = 0x08"
definition led0OffH :: u8 where "led0OffH = 0x09"
definition allLedOnL :: u8 where "allLedOnL = 0xFA"
definition allLedOnH :: u8 where "allLedOnH = 0xFB"
definition allLedOffL :: u8 where "allLedOffL = 0xFC"
definition allLedOffH :: u8 where "allLedOffH = 0xFD"

definition sleep :: u8 where "sleep = 0x10"
definition allcall :: u8 where "allcall = 0x01"
definition outdrv :: u8 where "outdrv = 0x04"

definition motorMapPWM :: "int \<rightharpoonup> int" where
  "motorMapPWM = map_of [(1, 8), (2, 13), (3, 2), (4, 7)]"

definition motorMapIn1 :: "int \<rightharpoonup> int" where
  "motorMapIn1 = map_of [(1, 10), (2, 11), (3, 4), (4, 5)]"

definition motorMapIn2 :: "int \<rightharpoonup> int" where
  "motorMapIn2 = map_of [(1, 9), (2, 12), (3, 3), (4, 6)]"

text \<open>
  \<^verbatim>\<open>getMotor\<close> returns the three channels of a motor and an error; on a missing key it
  returns zeros and the error \<^verbatim>\<open>fmt.Errorf("Motor map not found!")\<close>.
\<close>

definition getMotor :: "int \<Rightarrow> int \<times> int \<times> int \<times> error option" where
  "getMotor m =
     (case motorMapPWM m of
        None \<Rightarrow> (0, 0, 0, Some (Errorf ''Motor map not found!''))
      | Some pwm \<Rightarrow>
          (case motorMapIn1 m of
             None \<Rightarrow> (0, 0, 0, Some (Errorf ''Motor map not found!''))
           | Some in1 \<Rightarrow>
               (case motorMapIn2 m of
                  None \<Rightarrow> (0, 0, 0, Some (Errorf ''Motor map not found!''))
                | Some in2 \<Rightarrow> (pwm, in1, in2, None))))"

section \<open>Register writes\<close>

text \<open>
  Go's \<^verbatim>\<open>int\<close> is modelled by \<open>int\<close>.  The program multiplies an \<^verbatim>\<open>int\<close> only after
  clamping it (\<^verbatim>\<open>s*16\<close>) or right before truncating it to a byte (\<^verbatim>\<open>uint8(4*pin)\<close>), and
  a wrapped product has the same low eight bits as the exact one, so no overflow is
  observable.  \<^verbatim>\<open>uint8(x)\<close> keeps the low eight bits; \<^verbatim>\<open>x >> 8\<close> on a signed \<^verbatim>\<open>int\<close> is
  the arithmetic shift, \<open>drop_bit 8\<close> on \<open>int\<close>.
\<close>

definition uint8 :: "int \<Rightarrow> u8" where
  "uint8 x = word_of_int x"

text \<open>
  The closure \<^verbatim>\<open>writeReg\<close> of \<^verbatim>\<open>setPWM\<close>, \<^verbatim>\<open>setAllPWM\<close> and \<^verbatim>\<open>setPWMFreq\<close>: it shares the
  variable \<^verbatim>\<open>err\<close> with the enclosing function and does nothing once \<^verbatim>\<open>err\<close> is set.
  The state is the pair of \<^verbatim>\<open>err\<close> and the trace.
\<close>

definition writeReg :: "world \<Rightarrow> u8 \<Rightarrow> u8 \<Rightarrow> error option \<times> trace \<Rightarrow> error option \<times> trace" where
  "writeReg w r v s =
     (case fst s of
        Some e \<Rightarrow> s
      | None \<Rightarrow> WriteRegister w r v (snd s))"

definition setPWM :: "world \<Rightarrow> int \<Rightarrow> int \<Rightarrow> int \<Rightarrow> trace \<Rightarrow> error option \<times> trace" where
  "setPWM w pin on off tr =
     (let s0 = (None, tr);
          s1 = writeReg w (led0OnL + uint8 (4 * pin)) (uint8 (on AND 0xFF)) s0;
          s2 = writeReg w (led0OnH + uint8 (4 * pin)) (uint8 (drop_bit 8 on)) s1;
          s3 = writeReg w (led0OffL + uint8 (4 * pin)) (uint8 (off AND 0xFF)) s2;
          s4 = writeReg w (led0OffH + uint8 (4 * pin)) (uint8 (drop_bit 8 off)) s3
      in s4)"

definition setAllPWM :: "world \<Rightarrow> int \<Rightarrow> int \<Rightarrow> trace \<Rightarrow> error option \<times> trace" where
  "setAllPWM w on off tr =
     (let s0 = (None, tr);
          s1 = writeReg w allLedOnL (uint8 (on AND 0xFF)) s0;
          s2 = writeReg w allLedOnH (uint8 (drop_bit 8 on)) s1;
          s3 = writeReg w allLedOffL (uint8 (off AND 0xFF)) s2;
          s4 = writeReg w allLedOffH (uint8 (drop_bit 8 off)) s3
      in s4)"

text \<open>\<^verbatim>\<open>setPin\<close> drops the result of \<^verbatim>\<open>setPWM\<close> and always returns \<^verbatim>\<open>nil\<close>.\<close>

definition setPin :: "world \<Rightarrow> int \<Rightarrow> int \<Rightarrow> trace \<Rightarrow> error option \<times> trace" where
  "setPin w pin v tr =
     (if v = 1 then (None, snd (setPWM w pin 4096 0 tr))
      else if v = 0 then (None, snd (setPWM w pin 0 4096 tr))
      else (None, tr))"

section \<open>Motor commands\<close>

text \<open>
  Each command looks the motor up first and returns the lookup error untouched.  The
  results of \<^verbatim>\<open>setPWM\<close> and \<^verbatim>\<open>setPin\<close> are dropped: after a successful lookup the
  command returns \<^verbatim>\<open>nil\<close>.
\<close>

definition Speed :: "world \<Rightarrow> int \<Rightarrow> int \<Rightarrow> trace \<Rightarrow> error option \<times> trace" where
  "Speed w m s tr =
     (case getMotor m of
        (pwm, _, _, Some e) \<Rightarrow> (Some e, tr)
      | (pwm, _, _, None) \<Rightarrow>
          (let s' = (if s < 0 then 0 else if s > 255 then 255 else s)
           in (None, snd (setPWM w pwm 0 (s' * 16) tr))))"

definition Forward :: "world \<Rightarrow> int \<Rightarrow> trace \<Rightarrow> error option \<times> trace" where
  "Forward w m tr =
     (case getMotor m of
        (_, in1, in2, Some e) \<Rightarrow> (Some e, tr)
      | (_, in1, in2, None) \<Rightarrow>
          (let tr1 = snd (setPin w in1 1 tr);
               tr2 = snd (setPin w in2 0 tr1)
           in (None, tr2)))"

definition Backward :: "world \<Rightarrow> int \<Rightarrow> trace \<Rightarrow> error option \<times> trace" where
  "Backward w m tr =
     (case getMotor m of
        (_, in1, in2, Some e) \<Rightarrow> (Some e, tr)
      | (_, in1, in2, None) \<Rightarrow>
          (let tr1 = snd (setPin w in1 0 tr);
               tr2 = snd (setPin w in2 1 tr1)
           in (None, tr2)))"

definition Stop :: "world \<Rightarrow> int \<Rightarrow> trace \<Rightarrow> error option \<times> trace" where
  "Stop w m tr =
     (case getMotor m of
        (_, in1, in2, Some e) \<Rightarrow> (Some e, tr)
      | (_, in1, in2, None) \<Rightarrow>
          (let tr1 = snd (setPin w in1 0 tr);
               tr2 = snd (setPin w in2 0 tr1)
           in (None, tr2)))"

section \<open>Initialisation\<close>

definition initPWM :: "world \<Rightarrow> trace \<Rightarrow> error option \<times> trace" where
  "initPWM w tr =
     (case WriteRegister w mode2 outdrv tr of
        (Some e, tr1) \<Rightarrow> (Some e, tr1)
      | (None, tr1) \<Rightarrow>
          (case WriteRegister w mode1 allcall tr1 of
             (Some e, tr2) \<Rightarrow> (Some e, tr2)
           | (None, tr2) \<Rightarrow>
               (case ReadRegister w mode1 (time_Sleep 5 tr2) of
                  ((m, Some e), tr3) \<Rightarrow> (Some e, tr3)
                | ((m, None), tr3) \<Rightarrow>
                    (case WriteRegister w mode1 (m AND NOT sleep) tr3 of
                       (Some e, tr4) \<Rightarrow> (Some e, tr4)
                     | (None, tr4) \<Rightarrow> (None, time_Sleep 5 tr4)))))"

subsection \<open>The prescale value: IEEE 754 binary64 arithmetic\<close>

text \<open>
  \<^verbatim>\<open>setPWMFreq\<close> computes the prescale value in \<^verbatim>\<open>float64\<close>.  A finite \<^verbatim>\<open>float64\<close> is a
  rational number, and each Go operation (\<^verbatim>\<open>/\<close>, \<^verbatim>\<open>-\<close>, \<^verbatim>\<open>+\<close>, the conversion of a
  constant or of an \<^verbatim>\<open>int\<close>) yields the exact result rounded to the nearest
  \<^verbatim>\<open>float64\<close>, ties to the even mantissa.  \<open>f64\<close> is that rounding: a mantissa of 53
  bits, and the fixed quantum \<open>2\<^sup>-\<^sup>1\<^sup>0\<^sup>7\<^sup>4\<close> below the normal range.  Overflow to infinity is
  not modelled: the only infinite or undefined value of the computation arises for
  \<^verbatim>\<open>freq = 0\<close>, which \<open>prescale_byte\<close> treats apart.  The computation has no
  multiplication, so no fused multiply-add can change a rounding.
\<close>

definition round_half_even :: "rat \<Rightarrow> int" where
  "round_half_even x =
     (let n = \<lfloor>x\<rfloor>; r = x - of_int n
      in if r < 1 / 2 then n else if 1 / 2 < r then n + 1 else if even n then n else n + 1)"

text \<open>\<open>ilog2 x\<close> is the binary exponent of \<open>x \<noteq> 0\<close>: \<open>2\<^sup>e \<le> \<bar>x\<bar> < 2\<^sup>e\<^sup>+\<^sup>1\<close>.\<close>

definition ilog2 :: "rat \<Rightarrow> int" where
  "ilog2 x =
     (let (p, q) = quotient_of \<bar>x\<bar>;
          d = bitlen p - bitlen q
      in if 2 powi d \<le> \<bar>x\<bar> then d else d - 1)"

definition f64 :: "rat \<Rightarrow> rat" where
  "f64 x =
     (if x = 0 then 0
      else let u = 2 powi (max (ilog2 x) (- 1022) - 52)
           in of_int (round_half_even (x / u)) * u)"

definition math_Floor :: "rat \<Rightarrow> rat" where
  "math_Floor x = of_int \<lfloor>x\<rfloor>"

text \<open>The value of \<^verbatim>\<open>ps\<close> after line 192 of \<^verbatim>\<open>motorhat.go\<close>, for \<^verbatim>\<open>freq \<noteq> 0\<close>.\<close>

definition prescale_ps :: "int \<Rightarrow> rat" where
  "prescale_ps freq =
     (let ps = f64 25000000;
          ps = f64 (ps / f64 4096);
          ps = f64 (ps / f64 (of_int freq));
          ps = f64 (ps - f64 1);
          ps = math_Floor (f64 (ps + f64 (5 / 100)))
      in ps)"

text \<open>
  \<^verbatim>\<open>uint8(math.Floor(ps))\<close>: the conversion is exact when the value lies in \<open>0..255\<close>.
  Otherwise (also for the infinite \<^verbatim>\<open>ps\<close> of \<^verbatim>\<open>freq = 0\<close>) Go leaves the byte to the
  implementation, here \<open>conv_impl\<close>.
\<close>

definition prescale_byte :: "world \<Rightarrow> int \<Rightarrow> u8" where
  "prescale_byte w freq =
     (if freq = 0 then conv_impl w freq
      else let v = math_Floor (prescale_ps freq)
           in if 0 \<le> v \<and> v \<le> 255 then word_of_int \<lfloor>v\<rfloor> else conv_impl w freq)"

definition setPWMFreq :: "world \<Rightarrow> int \<Rightarrow> trace \<Rightarrow> error option \<times> trace" where
  "setPWMFreq w freq tr =
     (case ReadRegister w mode1 tr of
        ((oldmode, Some e), tr1) \<Rightarrow> (Some e, tr1)
      | ((oldmode, None), tr1) \<Rightarrow>
          (let newmode = (oldmode AND 0x7F) OR sleep;
               s1 = writeReg w mode1 newmode (None, tr1);
               s2 = writeReg w preescale (prescale_byte w freq) s1;
               s3 = writeReg w mode1 oldmode s2;
               s4 = (fst s3, time_Sleep 5 (snd s3));
               s5 = writeReg w mode1 (oldmode OR 0x80) s4
           in s5))"

definition init :: "world \<Rightarrow> trace \<Rightarrow> error option \<times> trace" where
  "init w tr =
     (case setAllPWM w 0 0 tr of
        (Some e, tr1) \<Rightarrow> (Some e, tr1)
      | (None, tr1) \<Rightarrow>
          (case initPWM w tr1 of
             (Some e, tr2) \<Rightarrow> (Some e, tr2)
           | (None, tr2) \<Rightarrow>
               (case setPWMFreq w 1600 tr2 of
                  (Some e, tr3) \<Rightarrow> (Some e, tr3)
                | (None, tr3) \<Rightarrow> (None, tr3))))"

record MotorHat =
  i2c_addr :: u8
  i2c_bus :: int

definition Close :: "trace \<Rightarrow> trace" where
  "Close tr = tr @ [CloseI2C]"

definition Open :: "world \<Rightarrow> u8 \<Rightarrow> int \<Rightarrow> trace \<Rightarrow> (error + MotorHat) \<times> trace" where
  "Open w addr bus tr =
     (case new_err w addr bus of
        Some e \<Rightarrow> (Inl e, tr @ [NewI2C addr bus])
      | None \<Rightarrow>
          (case init w (tr @ [NewI2C addr bus]) of
             (Some e, tr1) \<Rightarrow> (Inl e, Close tr1)
           | (None, tr1) \<Rightarrow> (Inr \<lparr>i2c_addr = addr, i2c_bus = bus\<rparr>, tr1)))"

section \<open>Notions of the specification\<close>

text \<open>A bus on which every write, respectively every read, succeeds.\<close>

definition writes_ok :: "world \<Rightarrow> bool" where
  "writes_ok w \<longleftrightarrow> (\<forall>h r v. write_err w h r v = None)"

definition reads_ok :: "world \<Rightarrow> bool" where
  "reads_ok w \<longleftrightarrow> (\<forall>h r. read_err w h r = None)"

text \<open>
  The register file a trace leaves behind: the last value written to each register.
  It is the content of the chip when the writes of the trace succeeded.
\<close>

definition reg_step :: "(u8 \<rightharpoonup> u8) \<Rightarrow> event \<Rightarrow> (u8 \<rightharpoonup> u8)" where
  "reg_step regs ev = (case ev of WriteReg r v \<Rightarrow> regs(r \<mapsto> v) | _ \<Rightarrow> regs)"

definition reg_file :: "trace \<Rightarrow> (u8 \<rightharpoonup> u8)" where
  "reg_file tr = foldl reg_step Map.empty tr"

text \<open>Decoding a 13-bit counter from its two registers: low byte + 256 * high byte.\<close>

definition decode_counter :: "u8 \<Rightarrow> u8 \<Rightarrow> int" where
  "decode_counter lo hi = uint lo + 256 * uint hi"

definition channel_duty :: "trace \<Rightarrow> int \<Rightarrow> (int \<times> int) option" where
  "channel_duty tr ch =
     (case (reg_file tr (0x06 + word_of_int (4 * ch)), reg_file tr (0x07 + word_of_int (4 * ch)),
            reg_file tr (0x08 + word_of_int (4 * ch)), reg_file tr (0x09 + word_of_int (4 * ch))) of
        (Some onL, Some onH, Some offL, Some offH) \<Rightarrow>
          Some (decode_counter onL onH, decode_counter offL offH)
      | _ \<Rightarrow> None)"

text \<open>
  The specification's per-channel duty write: the four registers at base address +
  \<open>4 * channel\<close>, holding \<open>on & 0xFF\<close>, \<open>on >> 8\<close>, \<open>off & 0xFF\<close>, \<open>off >> 8\<close>; its
  broadcast write to the four all-channel registers; and the register sequence that
  applies a prescale value (after the mode register was read as \<open>old\<close>).
\<close>

definition spec_channel_writes :: "int \<Rightarrow> int \<Rightarrow> int \<Rightarrow> event list" where
  "spec_channel_writes ch on off =
     [WriteReg (0x06 + word_of_int (4 * ch)) (word_of_int (on mod 256)),
      WriteReg (0x07 + word_of_int (4 * ch)) (word_of_int (on div 256)),
      WriteReg (0x08 + word_of_int (4 * ch)) (word_of_int (off mod 256)),
      WriteReg (0x09 + word_of_int (4 * ch)) (word_of_int (off div 256))]"

definition spec_broadcast_writes :: "int \<Rightarrow> int \<Rightarrow> event list" where
  "spec_broadcast_writes on off =
     [WriteReg 0xFA (word_of_int (on mod 256)),
      WriteReg 0xFB (word_of_int (on div 256)),
      WriteReg 0xFC (word_of_int (off mod 256)),
      WriteReg 0xFD (word_of_int (off div 256))]"

definition spec_prescale_sequence :: "u8 \<Rightarrow> u8 \<Rightarrow> event list" where
  "spec_prescale_sequence old p =
     [WriteReg 0x00 ((old AND 0x7F) OR 0x10),
      WriteReg 0xFE p,
      WriteReg 0x00 old,
      Sleep 5,
      WriteReg 0x00 (old OR 0x80)]"

text \<open>
  The result of issuing an event on the bus after history \<open>h\<close> (only a write can fail
  here), and "the \<open>i\<close>-th event of the sequence \<open>evs\<close>, started after \<open>tr\<close>, is the first
  one to fail, with error \<open>e\<close>".
\<close>

definition issue :: "world \<Rightarrow> trace \<Rightarrow> event \<Rightarrow> error option" where
  "issue w h ev = (case ev of WriteReg r v \<Rightarrow> write_err w h r v | _ \<Rightarrow> None)"

definition first_failure :: "world \<Rightarrow> trace \<Rightarrow> event list \<Rightarrow> nat \<Rightarrow> error \<Rightarrow> bool" where
  "first_failure w tr evs i e \<longleftrightarrow>
     i < length evs \<and>
     list_all (\<lambda>j. issue w (tr @ take j evs) (evs ! j) = None) [0..<i] \<and>
     issue w (tr @ take i evs) (evs ! i) = Some e"

definition is_write :: "event \<Rightarrow> bool" where
  "is_write ev = (case ev of WriteReg r v \<Rightarrow> True | _ \<Rightarrow> False)"

text \<open>The reference computation of the prescale value, in exact arithmetic.\<close>

definition prescale_ref :: "int \<Rightarrow> int" where
  "prescale_ref f = \<lfloor>(25000000 :: rat) / 4096 / of_int f - 1 + 5 / 100\<rfloor>"

subsection \<open>Three concrete buses\<close>

text \<open>
  A healthy bus whose mode register reads \<open>0x11\<close>; a bus on which every write fails;
  and a bus on which exactly the second transaction fails.
\<close>

definition healthy :: world where
  "healthy = \<lparr>new_err = (\<lambda>a b. None), write_err = (\<lambda>h r v. None),
     read_val = (\<lambda>h r. 0x11), read_err = (\<lambda>h r. None), conv_impl = (\<lambda>f. 0)\<rparr>"

definition dead :: world where
  "dead = \<lparr>new_err = (\<lambda>a b. None), write_err = (\<lambda>h r v. Some (BusError 5)),
     read_val = (\<lambda>h r. 0), read_err = (\<lambda>h r. None), conv_impl = (\<lambda>f. 0)\<rparr>"

definition flaky :: world where
  "flaky = \<lparr>new_err = (\<lambda>a b. None),
     write_err = (\<lambda>h r v. if length h = 1 then Some (BusError 5) else None),
     read_val = (\<lambda>h r. 0x11), read_err = (\<lambda>h r. None), conv_impl = (\<lambda>f. 0)\<rparr>"

section \<open>Basic facts and the motor commands\<close>

lemmas consts_defs = mode1_def mode2_def preescale_def led0OnL_def led0OnH_def led0OffL_def
  led0OffH_def allLedOnL_def allLedOnH_def allLedOffL_def allLedOffH_def sleep_def
  allcall_def outdrv_def

lemmas run_defs = Speed_def Forward_def Backward_def Stop_def setPin_def setPWM_def setAllPWM_def
  writeReg_def WriteRegister_def ReadRegister_def time_Sleep_def uint8_def getMotor_def
  motorMapPWM_def motorMapIn1_def motorMapIn2_def consts_defs

lemmas chip_defs = channel_duty_def reg_file_def reg_step_def decode_counter_def
  spec_channel_writes_def spec_broadcast_writes_def spec_prescale_sequence_def

lemma uint8_low_byte: "(word_of_int (x AND 0xFF) :: u8) = word_of_int (x mod 256)"
proof -
  have "(0xFF::int) = mask 8" by (simp add: mask_eq_exp_minus_1)
  then have "x AND 0xFF = take_bit 8 x" by (simp add: take_bit_eq_mask)
  then show ?thesis by (simp add: take_bit_eq_mod)
qed

lemma uint8_high_byte: "(word_of_int (drop_bit 8 x) :: u8) = word_of_int (x div 256)"
  by (simp add: drop_bit_eq_div)

lemma decode_counter_bytes:
  assumes "0 \<le> x" "x < 65536"
  shows "decode_counter (word_of_int (x mod 256)) (word_of_int (x div 256)) = x"
proof -
  have "x div 256 < 256" using assms by simp
  moreover have "0 \<le> x div 256" using assms by simp
  ultimately have "(x div 256) mod 256 = x div 256" by simp
  then show ?thesis
    by (simp add: decode_counter_def uint_word_of_int_eq take_bit_eq_mod)
qed

lemma writeReg_None: "writeReg w r v (None, tr) = (write_err w tr r v, tr @ [WriteReg r v])"
  by (simp add: writeReg_def WriteRegister_def)

lemma writeReg_Some: "writeReg w r v (Some e, tr) = (Some e, tr)"
  by (simp add: writeReg_def)

lemma setPWM_healthy:
  assumes "writes_ok w"
  shows "setPWM w pin on off tr = (None, tr @ spec_channel_writes pin on off)"
  using assms
  by (simp add: setPWM_def writes_ok_def writeReg_None spec_channel_writes_def consts_defs
      uint8_low_byte uint8_high_byte uint8_def)

lemma setAllPWM_healthy:
  assumes "writes_ok w"
  shows "setAllPWM w on off tr = (None, tr @ spec_broadcast_writes on off)"
  using assms
  by (simp add: setAllPWM_def writes_ok_def writeReg_None spec_broadcast_writes_def consts_defs
      uint8_low_byte uint8_high_byte uint8_def)

lemma reg_file_append: "reg_file (tr @ evs) = foldl reg_step (reg_file tr) evs"
  by (simp add: reg_file_def)

lemma channel_duty_spec_writes:
  assumes "0 \<le> on" "on < 65536" "0 \<le> off" "off < 65536"
  shows "channel_duty (tr @ spec_channel_writes ch on off) ch = Some (on, off)"
  using assms
  by (simp add: channel_duty_def reg_file_append spec_channel_writes_def reg_step_def
      decode_counter_bytes)


lemma getMotor_valid:
  "getMotor 1 = (8, 10, 9, None)" "getMotor 2 = (13, 11, 12, None)"
  "getMotor 3 = (2, 4, 3, None)" "getMotor 4 = (7, 5, 6, None)"
  by (simp_all add: getMotor_def motorMapPWM_def motorMapIn1_def motorMapIn2_def)

lemma getMotor_invalid:
  assumes "m \<notin> {1, 2, 3, 4}"
  shows "getMotor m = (0, 0, 0, Some (Errorf ''Motor map not found!''))"
  using assms by (simp add: getMotor_def motorMapPWM_def)

text \<open>
  Claim C5.  For every channel in \<open>0..15\<close> and all \<open>on\<close>, \<open>off\<close> in \<open>0..4095\<close>, on a bus
  whose writes succeed \<^verbatim>\<open>setPWM\<close> writes the four bytes \<open>on & 0xFF\<close>, \<open>on >> 8\<close>,
  \<open>off & 0xFF\<close>, \<open>off >> 8\<close> to the registers \<open>6 + 4 * channel\<close> \<dots> \<open>9 + 4 * channel\<close>, and
  decoding low byte + 256 * high byte gives back \<open>on\<close> and \<open>off\<close> exactly, both from the
  bytes and from the register file the writes leave behind.  So the bytes determine
  \<open>on\<close> and \<open>off\<close>: two pairs in range that make \<^verbatim>\<open>setPWM\<close> write the same are equal.
\<close>

theorem duty_bytes_roundtrip:
  assumes "0 \<le> ch" "ch \<le> 15" "0 \<le> on" "on \<le> 4095" "0 \<le> off" "off \<le> 4095"
    and "writes_ok w"
  shows "setPWM w ch on off tr =
           (None, tr @ [WriteReg (0x06 + word_of_int (4 * ch)) (word_of_int (on mod 256)),
                        WriteReg (0x07 + word_of_int (4 * ch)) (word_of_int (on div 256)),
                        WriteReg (0x08 + word_of_int (4 * ch)) (word_of_int (off mod 256)),
                        WriteReg (0x09 + word_of_int (4 * ch)) (word_of_int (off div 256))])
       \<and> decode_counter (word_of_int (on mod 256)) (word_of_int (on div 256)) = on
       \<and> decode_counter (word_of_int (off mod 256)) (word_of_int (off div 256)) = off
       \<and> channel_duty (snd (setPWM w ch on off tr)) ch = Some (on, off)
       \<and> (0 \<le> on' \<and> on' \<le> 4095 \<and> 0 \<le> off' \<and> off' \<le> 4095 \<and>
            snd (setPWM w ch on' off' tr) = snd (setPWM w ch on off tr) \<longrightarrow>
            on' = on \<and> off' = off)"
proof -
  have run: "setPWM w ch a b tr = (None, tr @ spec_channel_writes ch a b)" for a b
    using assms(7) by (rule setPWM_healthy)
  have duty: "channel_duty (snd (setPWM w ch on off tr)) ch = Some (on, off)"
    using assms by (simp add: run channel_duty_spec_writes)
  have same: "on' = on \<and> off' = off"
    if "0 \<le> on'" "on' \<le> 4095" "0 \<le> off'" "off' \<le> 4095"
      and eq: "snd (setPWM w ch on' off' tr) = snd (setPWM w ch on off tr)"
  proof -
    have "channel_duty (snd (setPWM w ch on' off' tr)) ch = Some (on', off')"
      using that(1-4) by (simp add: run channel_duty_spec_writes)
    then have "Some (on', off') = channel_duty (snd (setPWM w ch on off tr)) ch"
      by (simp only: eq)
    also have "\<dots> = Some (on, off)" by (rule duty)
    finally show ?thesis by simp
  qed
  have "decode_counter (word_of_int (on mod 256)) (word_of_int (on div 256)) = on"
    using assms by (simp add: decode_counter_bytes)
  moreover have "decode_counter (word_of_int (off mod 256)) (word_of_int (off div 256)) = off"
    using assms by (simp add: decode_counter_bytes)
  moreover have "setPWM w ch on off tr =
           (None, tr @ [WriteReg (0x06 + word_of_int (4 * ch)) (word_of_int (on mod 256)),
                        WriteReg (0x07 + word_of_int (4 * ch)) (word_of_int (on div 256)),
                        WriteReg (0x08 + word_of_int (4 * ch)) (word_of_int (off mod 256)),
                        WriteReg (0x09 + word_of_int (4 * ch)) (word_of_int (off div 256))])"
    by (simp add: run spec_channel_writes_def)
  ultimately show ?thesis
    using duty same by blast
qed

theorem duty_bytes_roundtrip_witness:
  "writes_ok healthy \<and>
   setPWM healthy 8 0 2048 [] =
     (None, [WriteReg 0x26 0x00, WriteReg 0x27 0x00, WriteReg 0x28 0x00, WriteReg 0x29 0x08]) \<and>
   decode_counter 0x00 0x08 = 2048 \<and>
   channel_duty (snd (setPWM healthy 8 0 2048 [])) 8 = Some (0, 2048) \<and>
   snd (setPWM healthy 8 1 2048 []) \<noteq> snd (setPWM healthy 8 0 2048 [])"
proof -
  have ok: "writes_ok healthy" by (simp add: writes_ok_def healthy_def)
  show ?thesis
    using ok duty_bytes_roundtrip [where ch = 8 and on = 0 and off = 2048 and w = healthy
        and on' = 1 and off' = 2048 and tr = "[]", OF _ _ _ _ _ _ ok]
    by (auto simp: channel_duty_def reg_file_def reg_step_def decode_counter_def)
qed

text \<open>
  Claim C6.  For a motor id outside \<open>{1, 2, 3, 4}\<close>, each of \<^verbatim>\<open>Speed\<close>, \<^verbatim>\<open>Forward\<close>,
  \<^verbatim>\<open>Backward\<close> and \<^verbatim>\<open>Stop\<close> returns the unknown-motor error ("Motor map not found!")
  and leaves the trace as it was: no bus transaction is issued, whatever the bus.
\<close>

theorem unknown_motor_no_io:
  assumes "m \<notin> {1, 2, 3, 4}"
  shows "Speed w m s tr = (Some (Errorf ''Motor map not found!''), tr)
       \<and> Forward w m tr = (Some (Errorf ''Motor map not found!''), tr)
       \<and> Backward w m tr = (Some (Errorf ''Motor map not found!''), tr)
       \<and> Stop w m tr = (Some (Errorf ''Motor map not found!''), tr)"
  by (simp add: Speed_def Forward_def Backward_def Stop_def getMotor_invalid [OF assms])

theorem unknown_motor_no_io_witness:
  "(5::int) \<notin> {1, 2, 3, 4}
   \<and> Speed healthy 5 100 [] = (Some (Errorf ''Motor map not found!''), [])
   \<and> Forward healthy 5 [] = (Some (Errorf ''Motor map not found!''), [])
   \<and> Backward healthy 5 [] = (Some (Errorf ''Motor map not found!''), [])
   \<and> Stop healthy 5 [] = (Some (Errorf ''Motor map not found!''), [])"
proof -
  have h: "(5::int) \<notin> {1, 2, 3, 4}" by simp
  show ?thesis using h unknown_motor_no_io [OF h, of healthy 100 "[]"] by simp
qed


text \<open>
  Claim C4.  For every channel, \<^verbatim>\<open>setPin\<close> with value 1 issues the duty write
  \<open>on = 4096\<close>, \<open>off = 0\<close> and with value 0 the duty write \<open>on = 0\<close>, \<open>off = 4096\<close> (on a
  bus whose writes succeed these are the four bytes shown, and the register file then
  decodes to that pair); for every other value it issues nothing.  It returns \<^verbatim>\<open>nil\<close>
  in all three cases.
\<close>

theorem setPin_encoding:
  "(writes_ok w \<longrightarrow>
      setPin w pin 1 tr =
        (None, tr @ [WriteReg (0x06 + word_of_int (4 * pin)) 0x00,
                     WriteReg (0x07 + word_of_int (4 * pin)) 0x10,
                     WriteReg (0x08 + word_of_int (4 * pin)) 0x00,
                     WriteReg (0x09 + word_of_int (4 * pin)) 0x00])
      \<and> channel_duty (snd (setPin w pin 1 tr)) pin = Some (4096, 0)
      \<and> setPin w pin 0 tr =
        (None, tr @ [WriteReg (0x06 + word_of_int (4 * pin)) 0x00,
                     WriteReg (0x07 + word_of_int (4 * pin)) 0x00,
                     WriteReg (0x08 + word_of_int (4 * pin)) 0x00,
                     WriteReg (0x09 + word_of_int (4 * pin)) 0x10])
      \<and> channel_duty (snd (setPin w pin 0 tr)) pin = Some (0, 4096))
   \<and> setPin w pin 1 tr = (None, snd (setPWM w pin 4096 0 tr))
   \<and> setPin w pin 0 tr = (None, snd (setPWM w pin 0 4096 tr))
   \<and> (v \<noteq> 0 \<and> v \<noteq> 1 \<longrightarrow> setPin w pin v tr = (None, tr))"
proof -
  have "channel_duty (tr @ spec_channel_writes pin 4096 0) pin = Some (4096, 0)"
    by (rule channel_duty_spec_writes) simp_all
  moreover have "channel_duty (tr @ spec_channel_writes pin 0 4096) pin = Some (0, 4096)"
    by (rule channel_duty_spec_writes) simp_all
  moreover have "spec_channel_writes pin 4096 0 =
      [WriteReg (0x06 + word_of_int (4 * pin)) 0x00, WriteReg (0x07 + word_of_int (4 * pin)) 0x10,
       WriteReg (0x08 + word_of_int (4 * pin)) 0x00, WriteReg (0x09 + word_of_int (4 * pin)) 0x00]"
    by (simp add: spec_channel_writes_def)
  moreover have "spec_channel_writes pin 0 4096 =
      [WriteReg (0x06 + word_of_int (4 * pin)) 0x00, WriteReg (0x07 + word_of_int (4 * pin)) 0x00,
       WriteReg (0x08 + word_of_int (4 * pin)) 0x00, WriteReg (0x09 + word_of_int (4 * pin)) 0x10]"
    by (simp add: spec_channel_writes_def)
  ultimately show ?thesis
    by (auto simp: setPin_def setPWM_healthy)
qed

theorem setPin_encoding_witness:
  "writes_ok healthy
   \<and> setPin healthy 4 1 [] =
       (None, [WriteReg 0x16 0x00, WriteReg 0x17 0x10, WriteReg 0x18 0x00, WriteReg 0x19 0x00])
   \<and> channel_duty (snd (setPin healthy 4 1 [])) 4 = Some (4096, 0)
   \<and> setPin healthy 4 0 [] =
       (None, [WriteReg 0x16 0x00, WriteReg 0x17 0x00, WriteReg 0x18 0x00, WriteReg 0x19 0x10])
   \<and> channel_duty (snd (setPin healthy 4 0 [])) 4 = Some (0, 4096)
   \<and> (2::int) \<noteq> 0 \<and> (2::int) \<noteq> 1 \<and> setPin healthy 4 2 [] = (None, [])"
proof -
  have ok: "writes_ok healthy" by (simp add: writes_ok_def healthy_def)
  show ?thesis
    using ok setPin_encoding [of healthy 4 "[]" 2]
    by (simp add: channel_duty_def reg_file_def reg_step_def decode_counter_def)
qed


lemma Speed_valid:
  assumes "m \<in> {1, 2, 3, 4}"
  shows "Speed w m v tr =
    (None, snd (setPWM w (fst (getMotor m)) 0
       ((if v < 0 then 0 else if 255 < v then 255 else v) * 16) tr))"
  using assms by (auto simp: Speed_def getMotor_valid)

text \<open>
  Claim C3.  For a motor id in \<open>{1, 2, 3, 4}\<close>: \<^verbatim>\<open>Speed\<close> with \<open>v < 0\<close> does exactly what
  it does with 0, with \<open>v > 255\<close> exactly what it does with 255, and for \<open>v\<close> in
  \<open>0..255\<close> it issues the duty write \<open>on = 0\<close>, \<open>off = v * 16\<close> on the motor's PWM channel
  (on a bus whose writes succeed: the four bytes of that pair, after which the channel's
  registers decode to \<open>(0, v * 16)\<close>).
\<close>

theorem Speed_clamps:
  assumes "m \<in> {1, 2, 3, 4}"
  shows "(v < 0 \<longrightarrow> Speed w m v tr = Speed w m 0 tr)
       \<and> (255 < v \<longrightarrow> Speed w m v tr = Speed w m 255 tr)
       \<and> (0 \<le> v \<and> v \<le> 255 \<longrightarrow>
            Speed w m v tr = (None, snd (setPWM w (fst (getMotor m)) 0 (v * 16) tr))
          \<and> (writes_ok w \<longrightarrow>
               Speed w m v tr = (None, tr @ spec_channel_writes (fst (getMotor m)) 0 (v * 16))
             \<and> channel_duty (snd (Speed w m v tr)) (fst (getMotor m)) = Some (0, v * 16)))"
proof -
  have "channel_duty (tr @ spec_channel_writes (fst (getMotor m)) 0 (v * 16)) (fst (getMotor m))
          = Some (0, v * 16)" if "0 \<le> v" "v \<le> 255"
    using that by (intro channel_duty_spec_writes) simp_all
  then show ?thesis
    by (simp add: Speed_valid [OF assms] setPWM_healthy)
qed

theorem Speed_clamps_witness:
  "(1::int) \<in> {1, 2, 3, 4}
   \<and> Speed healthy 1 (- 7) [] = Speed healthy 1 0 []
   \<and> Speed healthy 1 300 [] = Speed healthy 1 255 []
   \<and> writes_ok healthy
   \<and> Speed healthy 1 128 [] =
       (None, [WriteReg 0x26 0x00, WriteReg 0x27 0x00, WriteReg 0x28 0x00, WriteReg 0x29 0x08])
   \<and> channel_duty (snd (Speed healthy 1 128 [])) 8 = Some (0, 2048)"
proof -
  have m: "(1::int) \<in> {1, 2, 3, 4}" by simp
  have ok: "writes_ok healthy" by (simp add: writes_ok_def healthy_def)
  show ?thesis
    using ok Speed_clamps [OF m, of "- 7" healthy "[]"] Speed_clamps [OF m, of 300 healthy "[]"]
      Speed_clamps [OF m, of 128 healthy "[]"]
    by (simp add: run_defs chip_defs healthy_def)
qed

text \<open>
  Claim C10.  For a motor id in \<open>{1, 2, 3, 4}\<close> and every \<open>v\<close>, \<^verbatim>\<open>Speed\<close> issues the duty
  write \<open>on = 0\<close>, \<open>off = 16 * k\<close> for some \<open>k\<close> in \<open>0..255\<close>; on a bus whose writes
  succeed the PWM channel's registers then decode to \<open>on = 0\<close> and an \<open>off\<close> that is a
  multiple of 16 in \<open>0..4080\<close>, and bit 12 (the full-on / full-off bit) is set in neither.
\<close>

theorem Speed_never_full:
  assumes "m \<in> {1, 2, 3, 4}"
  shows "(\<exists>k. 0 \<le> k \<and> k \<le> 255 \<and>
            Speed w m v tr = (None, snd (setPWM w (fst (getMotor m)) 0 (16 * k) tr)))
       \<and> (writes_ok w \<longrightarrow>
            (case channel_duty (snd (Speed w m v tr)) (fst (getMotor m)) of
               None \<Rightarrow> False
             | Some (on, off) \<Rightarrow>
                 on = 0 \<and> 16 dvd off \<and> 0 \<le> off \<and> off \<le> 4080 \<and> \<not> bit on 12 \<and> \<not> bit off 12))"
proof -
  define k where "k = (if v < 0 then 0 else if 255 < v then 255 else v)"
  have k: "0 \<le> k" "k \<le> 255" by (simp_all add: k_def)
  have sp: "Speed w m v tr = (None, snd (setPWM w (fst (getMotor m)) 0 (16 * k) tr))"
    by (simp add: Speed_valid [OF assms] k_def mult.commute)
  have cd: "channel_duty (tr @ spec_channel_writes (fst (getMotor m)) 0 (16 * k)) (fst (getMotor m))
          = Some (0, 16 * k)"
    using k by (intro channel_duty_spec_writes) simp_all
  have "(16 * k) div 4096 = 0" using k by simp
  then have nb: "\<not> bit (16 * k) 12" by (simp add: bit_iff_odd)
  have "writes_ok w \<longrightarrow>
            (case channel_duty (snd (Speed w m v tr)) (fst (getMotor m)) of
               None \<Rightarrow> False
             | Some (on, off) \<Rightarrow>
                 on = 0 \<and> 16 dvd off \<and> 0 \<le> off \<and> off \<le> 4080 \<and> \<not> bit on 12 \<and> \<not> bit off 12)"
    using k nb by (simp add: sp setPWM_healthy cd)
  moreover have "\<exists>k. 0 \<le> k \<and> k \<le> 255 \<and>
            Speed w m v tr = (None, snd (setPWM w (fst (getMotor m)) 0 (16 * k) tr))"
    using k sp by blast
  ultimately show ?thesis by blast
qed

theorem Speed_never_full_witness:
  "(2::int) \<in> {1, 2, 3, 4} \<and> writes_ok healthy
   \<and> channel_duty (snd (Speed healthy 2 1000 [])) 13 = Some (0, 4080)"
proof -
  have m: "(2::int) \<in> {1, 2, 3, 4}" by simp
  have ok: "writes_ok healthy" by (simp add: writes_ok_def healthy_def)
  show ?thesis
    using ok Speed_never_full [OF m, of healthy 1000 "[]"]
    by (simp add: run_defs chip_defs healthy_def)
qed

text \<open>
  Claim C8.  On motor 3, \<^verbatim>\<open>Forward\<close> sets pin 4 to 1 and then pin 3 to 0, \<^verbatim>\<open>Backward\<close>
  sets pin 4 to 0 and pin 3 to 1, \<^verbatim>\<open>Stop\<close> sets both to 0.  On a bus whose writes succeed
  the trace grows by exactly the eight register writes shown, all to the registers
  \<open>0x12..0x19\<close> of channels 3 and 4, and the two channels decode to full-on
  \<open>(4096, 0)\<close> or full-off \<open>(0, 4096)\<close> accordingly.
\<close>

theorem motor3_direction_pins:
  "Forward w 3 tr = (None, snd (setPin w 3 0 (snd (setPin w 4 1 tr))))
   \<and> Backward w 3 tr = (None, snd (setPin w 3 1 (snd (setPin w 4 0 tr))))
   \<and> Stop w 3 tr = (None, snd (setPin w 3 0 (snd (setPin w 4 0 tr))))
   \<and> (writes_ok w \<longrightarrow>
        Forward w 3 tr =
          (None, tr @ [WriteReg 0x16 0x00, WriteReg 0x17 0x10, WriteReg 0x18 0x00, WriteReg 0x19 0x00,
                       WriteReg 0x12 0x00, WriteReg 0x13 0x00, WriteReg 0x14 0x00, WriteReg 0x15 0x10])
      \<and> Backward w 3 tr =
          (None, tr @ [WriteReg 0x16 0x00, WriteReg 0x17 0x00, WriteReg 0x18 0x00, WriteReg 0x19 0x10,
                       WriteReg 0x12 0x00, WriteReg 0x13 0x10, WriteReg 0x14 0x00, WriteReg 0x15 0x00])
      \<and> Stop w 3 tr =
          (None, tr @ [WriteReg 0x16 0x00, WriteReg 0x17 0x00, WriteReg 0x18 0x00, WriteReg 0x19 0x10,
                       WriteReg 0x12 0x00, WriteReg 0x13 0x00, WriteReg 0x14 0x00, WriteReg 0x15 0x10])
      \<and> channel_duty (snd (Forward w 3 tr)) 4 = Some (4096, 0)
      \<and> channel_duty (snd (Forward w 3 tr)) 3 = Some (0, 4096)
      \<and> channel_duty (snd (Backward w 3 tr)) 4 = Some (0, 4096)
      \<and> channel_duty (snd (Backward w 3 tr)) 3 = Some (4096, 0)
      \<and> channel_duty (snd (Stop w 3 tr)) 4 = Some (0, 4096)
      \<and> channel_duty (snd (Stop w 3 tr)) 3 = Some (0, 4096))"
  by (simp add: Forward_def Backward_def Stop_def getMotor_valid setPin_def setPWM_healthy
      spec_channel_writes_def channel_duty_def reg_file_append reg_step_def decode_counter_def)

theorem motor3_direction_pins_witness:
  "writes_ok healthy
   \<and> Forward healthy 3 [] =
       (None, [WriteReg 0x16 0x00, WriteReg 0x17 0x10, WriteReg 0x18 0x00, WriteReg 0x19 0x00,
               WriteReg 0x12 0x00, WriteReg 0x13 0x00, WriteReg 0x14 0x00, WriteReg 0x15 0x10])
   \<and> channel_duty (snd (Backward healthy 3 [])) 3 = Some (4096, 0)
   \<and> channel_duty (snd (Stop healthy 3 [])) 4 = Some (0, 4096)"
proof -
  have ok: "writes_ok healthy" by (simp add: writes_ok_def healthy_def)
  show ?thesis
    using ok motor3_direction_pins [of healthy "[]"]
    by (simp add: run_defs chip_defs healthy_def)
qed

text \<open>
  Claim C2 says that a motor command returns the bus failure of a register write it
  issues.  The code drops the results of \<^verbatim>\<open>setPWM\<close> and \<^verbatim>\<open>setPin\<close>: on a bus where
  every write fails, \<^verbatim>\<open>Speed(1, 128)\<close> issues one write, which fails, and returns \<^verbatim>\<open>nil\<close>;
  \<^verbatim>\<open>Forward(1)\<close>, \<^verbatim>\<open>Backward(1)\<close> and \<^verbatim>\<open>Stop(1)\<close> issue the first write of each of their
  two pins, both fail, and they return \<^verbatim>\<open>nil\<close>.
\<close>

theorem bus_failure_not_reported:
  "write_err dead [] 0x26 0x00 = Some (BusError 5)
   \<and> Speed dead 1 128 [] = (None, [WriteReg 0x26 0x00])
   \<and> Forward dead 1 [] = (None, [WriteReg 0x2E 0x00, WriteReg 0x2A 0x00])
   \<and> Backward dead 1 [] = (None, [WriteReg 0x2E 0x00, WriteReg 0x2A 0x00])
   \<and> Stop dead 1 [] = (None, [WriteReg 0x2E 0x00, WriteReg 0x2A 0x00])"
  by (simp add: Speed_def Forward_def Backward_def Stop_def getMotor_valid setPin_def setPWM_def
      writeReg_def WriteRegister_def dead_def consts_defs uint8_def)

section \<open>Short-circuiting register sequences\<close>

lemma setPWM_chain:
  "setPWM w pin on off tr =
     (let evs = spec_channel_writes pin on off in
      case issue w tr (evs ! 0) of Some e \<Rightarrow> (Some e, tr @ take (Suc 0) evs) | None \<Rightarrow>
      case issue w (tr @ take (Suc 0) evs) (evs ! Suc 0) of Some e \<Rightarrow> (Some e, tr @ take (Suc (Suc 0)) evs) | None \<Rightarrow>
      case issue w (tr @ take (Suc (Suc 0)) evs) (evs ! Suc (Suc 0)) of Some e \<Rightarrow> (Some e, tr @ take (Suc (Suc (Suc 0))) evs) | None \<Rightarrow>
      (issue w (tr @ take (Suc (Suc (Suc 0))) evs) (evs ! Suc (Suc (Suc 0))), tr @ evs))"
  by (simp add: setPWM_def spec_channel_writes_def issue_def writeReg_def WriteRegister_def
      consts_defs uint8_def uint8_low_byte uint8_high_byte Let_def
      split: option.split)

lemma setAllPWM_chain:
  "setAllPWM w on off tr =
     (let evs = spec_broadcast_writes on off in
      case issue w tr (evs ! 0) of Some e \<Rightarrow> (Some e, tr @ take (Suc 0) evs) | None \<Rightarrow>
      case issue w (tr @ take (Suc 0) evs) (evs ! Suc 0) of Some e \<Rightarrow> (Some e, tr @ take (Suc (Suc 0)) evs) | None \<Rightarrow>
      case issue w (tr @ take (Suc (Suc 0)) evs) (evs ! Suc (Suc 0)) of Some e \<Rightarrow> (Some e, tr @ take (Suc (Suc (Suc 0))) evs) | None \<Rightarrow>
      (issue w (tr @ take (Suc (Suc (Suc 0))) evs) (evs ! Suc (Suc (Suc 0))), tr @ evs))"
  by (simp add: setAllPWM_def spec_broadcast_writes_def issue_def writeReg_def WriteRegister_def
      consts_defs uint8_def uint8_low_byte uint8_high_byte Let_def
      split: option.split)

lemma first_failure_4:
  assumes "first_failure w tr evs i e" "length evs = 4"
  shows "(case issue w tr (evs ! 0) of Some e \<Rightarrow> (Some e, tr @ take (Suc 0) evs) | None \<Rightarrow>
      case issue w (tr @ take (Suc 0) evs) (evs ! Suc 0) of Some e \<Rightarrow> (Some e, tr @ take (Suc (Suc 0)) evs) | None \<Rightarrow>
      case issue w (tr @ take (Suc (Suc 0)) evs) (evs ! Suc (Suc 0)) of Some e \<Rightarrow> (Some e, tr @ take (Suc (Suc (Suc 0))) evs) | None \<Rightarrow>
      (issue w (tr @ take (Suc (Suc (Suc 0))) evs) (evs ! Suc (Suc (Suc 0))), tr @ evs)) = (Some e, tr @ take (Suc i) evs)"
proof -
  from assms have "i < 4" by (simp add: first_failure_def)
  then consider "i = 0" | "i = Suc 0" | "i = Suc (Suc 0)" | "i = Suc (Suc (Suc 0))"
    by linarith
  then show ?thesis
  proof cases
    case 1
    with assms show ?thesis by (simp add: first_failure_def)
  next
    case 2
    with assms show ?thesis by (simp add: first_failure_def)
  next
    case 3
    with assms show ?thesis by (simp add: first_failure_def)
  next
    case 4
    with assms show ?thesis by (simp add: first_failure_def)
  qed
qed

lemma setPWMFreq_chain:
  assumes "read_err w tr 0x00 = None"
  shows "setPWMFreq w freq tr =
     (let h = tr @ [ReadReg 0x00];
          evs = spec_prescale_sequence (read_val w tr 0x00) (prescale_byte w freq) in
      case issue w h (evs ! 0) of Some e \<Rightarrow> (Some e, h @ take (Suc 0) evs @ [Sleep 5]) | None \<Rightarrow>
      case issue w (h @ take (Suc 0) evs) (evs ! Suc 0) of Some e \<Rightarrow> (Some e, h @ take (Suc (Suc 0)) evs @ [Sleep 5]) | None \<Rightarrow>
      case issue w (h @ take (Suc (Suc 0)) evs) (evs ! Suc (Suc 0)) of Some e \<Rightarrow> (Some e, h @ take (Suc (Suc (Suc 0))) evs @ [Sleep 5]) | None \<Rightarrow>
      (issue w (h @ take (Suc (Suc (Suc (Suc 0)))) evs) (evs ! Suc (Suc (Suc (Suc 0)))), h @ evs))"
  using assms
  by (simp add: setPWMFreq_def ReadRegister_def time_Sleep_def spec_prescale_sequence_def issue_def
      writeReg_def WriteRegister_def consts_defs Let_def split: option.split)

text \<open>
  Claim C7.  The three register sequences stop at the first write that fails.  If the
  \<open>i\<close>-th event of the sequence is the first one to fail, with error \<open>e\<close>, then the
  per-channel duty write and the broadcast write return \<open>e\<close> and have issued exactly
  the events up to and including the \<open>i\<close>-th; the prescale sequence (after its read
  succeeded) returns \<open>e\<close>, has issued the events up to and including the \<open>i\<close>-th, and
  of the later ones only the pause, none of the writes.
\<close>

theorem short_circuit:
  "(first_failure w tr (spec_channel_writes pin on off) i e \<longrightarrow>
      setPWM w pin on off tr = (Some e, tr @ take (Suc i) (spec_channel_writes pin on off)))
   \<and> (first_failure w tr (spec_broadcast_writes on off) i e \<longrightarrow>
      setAllPWM w on off tr = (Some e, tr @ take (Suc i) (spec_broadcast_writes on off)))
   \<and> (read_err w tr 0x00 = None \<and>
      first_failure w (tr @ [ReadReg 0x00])
        (spec_prescale_sequence (read_val w tr 0x00) (prescale_byte w freq)) i e \<longrightarrow>
      setPWMFreq w freq tr =
        (Some e, tr @ [ReadReg 0x00]
           @ take (Suc i) (spec_prescale_sequence (read_val w tr 0x00) (prescale_byte w freq))
           @ filter (\<lambda>ev. \<not> is_write ev)
               (drop (Suc i) (spec_prescale_sequence (read_val w tr 0x00) (prescale_byte w freq)))))"
proof (intro conjI impI)
  assume "first_failure w tr (spec_channel_writes pin on off) i e"
  then show "setPWM w pin on off tr = (Some e, tr @ take (Suc i) (spec_channel_writes pin on off))"
    unfolding setPWM_chain Let_def by (rule first_failure_4) (simp add: spec_channel_writes_def)
next
  assume "first_failure w tr (spec_broadcast_writes on off) i e"
  then show "setAllPWM w on off tr = (Some e, tr @ take (Suc i) (spec_broadcast_writes on off))"
    unfolding setAllPWM_chain Let_def by (rule first_failure_4) (simp add: spec_broadcast_writes_def)
next
  define old where "old = read_val w tr 0x00"
  define p where "p = prescale_byte w freq"
  define h where "h = tr @ [ReadReg 0x00]"
  assume a: "read_err w tr 0x00 = None \<and>
      first_failure w (tr @ [ReadReg 0x00])
        (spec_prescale_sequence (read_val w tr 0x00) (prescale_byte w freq)) i e"
  then have rd: "read_err w tr 0x00 = None"
    and ff: "first_failure w h (spec_prescale_sequence old p) i e"
    by (simp_all add: old_def p_def h_def)
  from ff have "i < 5" by (simp add: first_failure_def spec_prescale_sequence_def)
  then consider "i = 0" | "i = Suc 0" | "i = Suc (Suc 0)" | "i = Suc (Suc (Suc 0))"
    | "i = Suc (Suc (Suc (Suc 0)))"
    by linarith
  then have "setPWMFreq w freq tr =
        (Some e, h @ take (Suc i) (spec_prescale_sequence old p)
           @ filter (\<lambda>ev. \<not> is_write ev) (drop (Suc i) (spec_prescale_sequence old p)))"
  proof cases
    case 1
    with ff show ?thesis
      by (simp add: setPWMFreq_chain [OF rd] first_failure_def spec_prescale_sequence_def
          is_write_def old_def p_def h_def)
  next
    case 2
    with ff show ?thesis
      by (simp add: setPWMFreq_chain [OF rd] first_failure_def spec_prescale_sequence_def
          is_write_def old_def p_def h_def)
  next
    case 3
    with ff show ?thesis
      by (simp add: setPWMFreq_chain [OF rd] first_failure_def spec_prescale_sequence_def
          is_write_def old_def p_def h_def)
  next
    case 4
    with ff show ?thesis
      by (simp add: first_failure_def spec_prescale_sequence_def issue_def)
  next
    case 5
    with ff show ?thesis
      by (simp add: setPWMFreq_chain [OF rd] first_failure_def spec_prescale_sequence_def
          is_write_def old_def p_def h_def)
  qed
  then show "setPWMFreq w freq tr =
        (Some e, tr @ [ReadReg 0x00]
           @ take (Suc i) (spec_prescale_sequence (read_val w tr 0x00) (prescale_byte w freq))
           @ filter (\<lambda>ev. \<not> is_write ev)
               (drop (Suc i) (spec_prescale_sequence (read_val w tr 0x00) (prescale_byte w freq))))"
    by (simp add: old_def p_def h_def)
qed

theorem short_circuit_witness:
  "first_failure flaky [] (spec_channel_writes 8 0 2048) (Suc 0) (BusError 5)
   \<and> setPWM flaky 8 0 2048 [] = (Some (BusError 5), [WriteReg 0x26 0x00, WriteReg 0x27 0x00])
   \<and> first_failure flaky [] (spec_broadcast_writes 0 2048) (Suc 0) (BusError 5)
   \<and> setAllPWM flaky 0 2048 [] = (Some (BusError 5), [WriteReg 0xFA 0x00, WriteReg 0xFB 0x00])
   \<and> read_err flaky [] 0x00 = None
   \<and> first_failure flaky [ReadReg 0x00]
        (spec_prescale_sequence (read_val flaky [] 0x00) (prescale_byte flaky 1600)) 0 (BusError 5)
   \<and> setPWMFreq flaky 1600 [] =
        (Some (BusError 5), [ReadReg 0x00, WriteReg 0x00 0x11, Sleep 5])"
proof -
  have a: "first_failure flaky [] (spec_channel_writes 8 0 2048) (Suc 0) (BusError 5)"
    by (simp add: first_failure_def issue_def flaky_def spec_channel_writes_def)
  have b: "first_failure flaky [] (spec_broadcast_writes 0 2048) (Suc 0) (BusError 5)"
    by (simp add: first_failure_def issue_def flaky_def spec_broadcast_writes_def)
  have c: "read_err flaky [] 0x00 = None" by (simp add: flaky_def)
  have d: "first_failure flaky [ReadReg 0x00]
        (spec_prescale_sequence (read_val flaky [] 0x00) (prescale_byte flaky 1600)) 0 (BusError 5)"
    by (simp add: first_failure_def issue_def flaky_def spec_prescale_sequence_def)
  show ?thesis
    using a b c d
      short_circuit [where w = flaky and tr = "[]" and pin = 8 and on = 0 and off = 2048
        and i = "Suc 0" and e = "BusError 5" and freq = 1600]
      short_circuit [where w = flaky and tr = "[]" and pin = 8 and on = 0 and off = 2048
        and i = 0 and e = "BusError 5" and freq = 1600]
    by (simp add: spec_channel_writes_def spec_broadcast_writes_def spec_prescale_sequence_def
        is_write_def flaky_def)
qed

section \<open>The prescale value\<close>

subsection \<open>Rounding to binary64\<close>

lemma round_half_even_err: "\<bar>of_int (round_half_even x) - x\<bar> \<le> 1 / 2"
proof -
  have "of_int \<lfloor>x\<rfloor> \<le> x" "x < of_int \<lfloor>x\<rfloor> + 1" by linarith+
  then show ?thesis
    by (auto simp: round_half_even_def Let_def)
qed

lemma round_half_even_of_int [simp]: "round_half_even (of_int n) = n"
  by (simp add: round_half_even_def)

lemma bitlen_rat_bounds:
  assumes "0 < n"
  shows "2 powi (bitlen n - 1) \<le> (of_int n :: rat)" and "(of_int n :: rat) < 2 powi (bitlen n)"
proof -
  from bitlen_bounds [OF assms]
  have a: "2 ^ nat (bitlen n - 1) \<le> n" and b: "n < 2 ^ nat (bitlen n)" by auto
  have pos: "1 \<le> bitlen n"
    using assms bitlen_eq_zero_iff [of n] bitlen_nonneg [of n] by linarith
  have "(of_int (2 ^ nat (bitlen n - 1)) :: rat) \<le> of_int n"
    using a by (simp only: of_int_le_iff)
  then show "2 powi (bitlen n - 1) \<le> (of_int n :: rat)"
    using pos by (simp add: power_int_def)
  have "(of_int n :: rat) < of_int (2 ^ nat (bitlen n))"
    using b by (simp only: of_int_less_iff)
  then show "(of_int n :: rat) < 2 powi (bitlen n)"
    using pos by (simp add: power_int_def)
qed

text \<open>\<open>ilog2\<close> is the binary exponent.\<close>

lemma ilog2_bounds:
  assumes "x \<noteq> 0"
  shows "2 powi (ilog2 x) \<le> \<bar>x\<bar>" and "\<bar>x\<bar> < 2 powi (ilog2 x + 1)"
proof -
  obtain p q where pq: "quotient_of \<bar>x\<bar> = (p, q)" by (cases "quotient_of \<bar>x\<bar>")
  have q: "0 < q" using pq by (rule quotient_of_denom_pos)
  have x: "\<bar>x\<bar> = of_int p / of_int q" using pq by (rule quotient_of_div)
  have "0 < \<bar>x\<bar>" using assms by simp
  then have p: "0 < p" using q x by (simp add: zero_less_divide_iff)
  define d where "d = bitlen p - bitlen q"
  have il: "ilog2 x = (if 2 powi d \<le> \<bar>x\<bar> then d else d - 1)"
    by (simp add: ilog2_def pq d_def Let_def)
  note P = bitlen_rat_bounds [OF p] and Q = bitlen_rat_bounds [OF q]
  have qr: "(0::rat) < of_int q" using q by simp
  have lo: "2 powi (d - 1) \<le> \<bar>x\<bar>"
  proof -
    have "2 powi (d - 1) * (of_int q :: rat) \<le> 2 powi (d - 1) * 2 powi (bitlen q)"
      using Q(2) by (intro mult_left_mono) auto
    also have "\<dots> = 2 powi (bitlen p - 1)"
      by (simp add: d_def power_int_add [symmetric])
    also have "\<dots> \<le> of_int p" by (rule P(1))
    finally show ?thesis using qr by (simp add: x pos_le_divide_eq)
  qed
  have hi: "\<bar>x\<bar> < 2 powi (d + 1)"
  proof -
    have "(of_int p :: rat) < 2 powi (bitlen p)" by (rule P(2))
    also have "\<dots> = 2 powi (d + 1) * 2 powi (bitlen q - 1)"
      by (simp add: d_def power_int_add [symmetric])
    also have "\<dots> \<le> 2 powi (d + 1) * of_int q"
      using Q(1) by (intro mult_left_mono) auto
    finally show ?thesis using qr by (simp add: x pos_divide_less_eq)
  qed
  show "2 powi (ilog2 x) \<le> \<bar>x\<bar>" using lo by (simp add: il)
  show "\<bar>x\<bar> < 2 powi (ilog2 x + 1)" using hi by (auto simp: il not_le)
qed

lemma ilog2_le:
  assumes "x \<noteq> 0" "\<bar>x\<bar> < 2 powi (k + 1)"
  shows "ilog2 x \<le> k"
proof -
  have "(2::rat) powi (ilog2 x) < 2 powi (k + 1)"
    using ilog2_bounds(1) [OF assms(1)] assms(2) by linarith
  then have "ilog2 x < k + 1"
    by (metis power_int_increasing not_le one_le_numeral)
  then show ?thesis by simp
qed

text \<open>The rounding error is at most half a unit in the last place.\<close>

lemma f64_err:
  assumes "\<bar>x\<bar> < 2 powi (k + 1)" "- 1022 \<le> k"
  shows "\<bar>f64 x - x\<bar> \<le> 2 powi (k - 53)"
proof (cases "x = 0")
  case True
  then show ?thesis by (simp add: f64_def)
next
  case False
  define e where "e = max (ilog2 x) (- 1022)"
  define u :: rat where "u = 2 powi (e - 52)"
  have u: "0 < u" by (simp add: u_def)
  have e: "e \<le> k" using ilog2_le [OF False assms(1)] assms(2) by (simp add: e_def)
  have f: "f64 x = of_int (round_half_even (x / u)) * u"
    using False by (simp add: f64_def e_def u_def Let_def)
  have "f64 x - x = (of_int (round_half_even (x / u)) - x / u) * u"
    using u by (simp add: f left_diff_distrib)
  then have "\<bar>f64 x - x\<bar> = \<bar>of_int (round_half_even (x / u)) - x / u\<bar> * u"
    using u by (simp only: abs_mult abs_of_pos)
  also have "\<dots> \<le> 1 / 2 * u"
    using round_half_even_err [of "x / u"] u by (intro mult_right_mono) auto
  also have "\<dots> = 2 powi (e - 53)"
    by (simp add: u_def power_int_diff)
  also have "\<dots> \<le> 2 powi (k - 53)"
    using e by (intro power_int_increasing) auto
  finally show ?thesis .
qed

text \<open>A number with a mantissa of at most 53 bits is not changed.\<close>

lemma f64_dyadic:
  assumes "\<bar>m\<bar> < 2 ^ 53" "- 1074 \<le> k"
  shows "f64 (of_int m * 2 powi k) = of_int m * 2 powi k"
proof (cases "m = 0")
  case True
  then show ?thesis by (simp add: f64_def)
next
  case False
  define x :: rat where "x = of_int m * 2 powi k"
  have x0: "x \<noteq> 0" using False by (simp add: x_def)
  define e where "e = max (ilog2 x) (- 1022)"
  define u :: rat where "u = 2 powi (e - 52)"
  have "\<bar>x\<bar> = of_int \<bar>m\<bar> * 2 powi k" by (simp add: x_def abs_mult)
  also have "\<dots> < of_int (2 ^ 53) * 2 powi k"
    using assms(1)
    by (intro mult_strict_right_mono) (simp_all only: of_int_less_iff zero_less_power_int zero_less_numeral)
  also have "\<dots> = 2 powi (k + 52 + 1)"
    by (simp add: power_int_add)
  finally have "ilog2 x \<le> k + 52" using x0 by (intro ilog2_le)
  then have ek: "0 \<le> k - (e - 52)" using assms(2) by (simp add: e_def)
  have "x / u = of_int m * 2 powi (k - (e - 52))"
    by (simp add: x_def u_def power_int_diff)
  also have "\<dots> = of_int (m * 2 ^ nat (k - (e - 52)))"
    using ek by (simp add: power_int_def)
  finally have xu: "x / u = of_int (m * 2 ^ nat (k - (e - 52)))" .
  have "f64 x = of_int (round_half_even (x / u)) * u"
    using x0 by (simp add: f64_def e_def u_def Let_def)
  also have "\<dots> = x / u * u" by (simp only: xu round_half_even_of_int)
  also have "\<dots> = x" by (simp add: u_def)
  finally show ?thesis by (simp add: x_def)
qed

lemma f64_of_int:
  assumes "\<bar>m\<bar> < 2 ^ 53"
  shows "f64 (of_int m) = of_int m"
  using f64_dyadic [OF assms, of 0] by simp

text \<open>The result has a mantissa of at most 53 bits.\<close>

lemma f64_mantissa:
  assumes "x \<noteq> 0"
  shows "\<exists>m. f64 x = of_int m * 2 powi (max (ilog2 x) (- 1022) - 52) \<and> \<bar>m\<bar> \<le> 2 ^ 53"
proof -
  define e where "e = max (ilog2 x) (- 1022)"
  define u :: rat where "u = 2 powi (e - 52)"
  define m where "m = round_half_even (x / u)"
  have u: "0 < u" by (simp add: u_def)
  have f: "f64 x = of_int m * u"
    using assms by (simp add: f64_def e_def u_def m_def Let_def)
  have "\<bar>x\<bar> < 2 powi (ilog2 x + 1)" using assms by (rule ilog2_bounds)
  also have "\<dots> \<le> 2 powi (e + 1)" by (intro power_int_increasing) (simp_all add: e_def)
  also have "\<dots> = 2 ^ 53 * u" by (simp add: u_def power_int_diff power_int_add)
  finally have "\<bar>x / u\<bar> < 2 ^ 53" using u by (simp add: abs_mult pos_divide_less_eq)
  then have "\<bar>x / u\<bar> \<le> of_int (2 ^ 53)" by simp
  moreover have "\<bar>of_int m - x / u\<bar> \<le> 1 / 2" unfolding m_def by (rule round_half_even_err)
  ultimately have "\<bar>(of_int m :: rat)\<bar> \<le> of_int (2 ^ 53) + 1 / 2" by linarith
  then have "(of_int \<bar>m\<bar> :: rat) < of_int (2 ^ 53 + 1)" by simp
  then have "\<bar>m\<bar> < 2 ^ 53 + 1" by (simp only: of_int_less_iff)
  then have "\<bar>m\<bar> \<le> 2 ^ 53" by simp
  then show ?thesis using f by (auto simp: e_def u_def)
qed

text \<open>The \<^verbatim>\<open>float64\<close> nearest to \<open>0.1\<close> is \<^verbatim>\<open>0x3FB999999999999A\<close>.\<close>

lemma f64_tenth: "f64 (1 / 10) = 3602879701896397 / 36028797018963968"
proof -
  have q: "quotient_of (1 / 10 :: rat) = (1, 10)" by code_simp
  have b: "bitlen 1 = 1" "bitlen 10 = 4" by code_simp+
  have il: "ilog2 (1 / 10) = - 4"
    by (simp add: ilog2_def q b power_int_minus_divide)
  have u: "(2::rat) powi (max (- 4) (- 1022) - 52) = 1 / 72057594037927936"
    by (simp add: power_int_minus_divide)
  have fl: "\<lfloor>(36028797018963968 :: rat) / 5\<rfloor> = 7205759403792793"
    by (simp add: floor_eq_iff)
  have r: "round_half_even (36028797018963968 / 5) = 7205759403792794"
    by (simp add: round_half_even_def Let_def fl)
  show ?thesis
    by (simp add: f64_def il u r Let_def)
qed

lemma floor_near_fraction:
  fixes y :: rat and N D :: int
  assumes D: "0 < D" and nd: "\<not> D dvd N" and close: "\<bar>y - of_int N / of_int D\<bar> < 1 / of_int D"
  shows "\<lfloor>y\<rfloor> = N div D"
proof -
  define r where "r = N mod D"
  have "0 \<le> N mod D" "N mod D < D" "N mod D \<noteq> 0"
    using D nd by (simp_all add: dvd_eq_mod_eq_0)
  then have r: "1 \<le> r" "r \<le> D - 1"
    unfolding r_def by linarith+
  have Dr: "(0::rat) < of_int D" using D by simp
  have "N = D * (N div D) + r" by (simp add: r_def)
  then have "(of_int N :: rat) = of_int D * of_int (N div D) + of_int r"
    by (metis of_int_add of_int_mult)
  then have nd_eq: "(of_int N :: rat) / of_int D = of_int (N div D) + of_int r / of_int D"
    using Dr by (simp add: field_simps)
  have r1: "1 / (of_int D :: rat) \<le> of_int r / of_int D"
    using r(1) Dr by (simp add: divide_le_cancel)
  have r2: "of_int r / (of_int D :: rat) \<le> 1 - 1 / of_int D"
  proof -
    have "(of_int r :: rat) \<le> of_int D - 1"
      using r(2) by (metis of_int_le_iff of_int_diff of_int_1)
    then show ?thesis using Dr by (simp add: field_simps)
  qed
  have "of_int (N div D) < y" "y < of_int (N div D) + 1"
    using close nd_eq r1 r2 by (auto simp: abs_less_iff)
  then show ?thesis by (intro floor_unique) auto
qed

text \<open>
  \<open>25000000 / 4096 / f - 1 + 5 / 100 = (500000000 - 77824 * f) / (81920 * f)\<close> is never
  an integer: \<open>4096\<close> divides \<open>81920\<close> and \<open>77824\<close> but not \<open>500000000\<close>.
\<close>

lemma prescale_not_integral:
  fixes f :: int
  shows "\<not> 81920 * f dvd 500000000 - 77824 * f"
proof
  assume a: "81920 * f dvd 500000000 - 77824 * f"
  have "(4096::int) dvd 81920 * f" by simp
  then have "4096 dvd 500000000 - 77824 * f" using a by (rule dvd_trans)
  moreover have "(4096::int) dvd 77824 * f" by simp
  ultimately have "(4096::int) dvd (500000000 - 77824 * f) + 77824 * f" by (rule dvd_add)
  then show False by simp
qed

lemma f64_consts:
  "f64 25000000 = 25000000" "f64 4096 = 4096" "f64 1 = 1"
  "f64 (25000000 / 4096) = 25000000 / 4096"
proof -
  show "f64 25000000 = 25000000" using f64_of_int [of 25000000] by simp
  show "f64 4096 = 4096" using f64_of_int [of 4096] by simp
  show "f64 1 = 1" using f64_of_int [of 1] by simp
  show "f64 (25000000 / 4096) = 25000000 / 4096" using f64_dyadic [of 390625 "- 6"] by simp
qed

text \<open>
  The three roundings of the computation move the value by less than \<open>2\<^sup>-\<^sup>4\<^sup>4\<close>, the
  exact value is at least \<open>1 / (81920 * f)\<close> away from every integer, so the floor of
  the \<^verbatim>\<open>float64\<close> value is the floor of the exact value.
\<close>

lemma prescale_ps_exact:
  assumes lo: "24 \<le> f" and hi: "f \<le> 100000000"
  shows "prescale_ps f = of_int (prescale_ref f)"
proof -
  define F :: rat where "F = of_int f"
  have F: "24 \<le> F" "F \<le> 100000000" using lo hi by (simp_all add: F_def)
  define q :: rat where "q = 25000000 / 4096 / F"
  have q: "0 < q" "q < 255" using F by (simp_all add: q_def field_simps)
  have cf: "f64 (of_int f) = of_int f" using lo hi by (intro f64_of_int) simp
  define x1 where "x1 = f64 q"
  define x2 where "x2 = f64 (x1 - 1)"
  define c where "c = f64 (5 / 100)"
  define x3 where "x3 = f64 (x2 + c)"
  have ps: "prescale_ps f = of_int \<lfloor>x3\<rfloor>"
    unfolding prescale_ps_def Let_def math_Floor_def x3_def x2_def x1_def c_def q_def F_def
    by (simp only: f64_consts cf)
  have p8: "(256::rat) = 2 powi (7 + 1)" by simp
  have p46: "(2::rat) powi (7 - 53) = 1 / 70368744177664" by (simp add: power_int_minus_divide)
  have "\<bar>q\<bar> < 256" using q by simp
  then have "\<bar>x1 - q\<bar> \<le> 2 powi (7 - 53)"
    unfolding x1_def p8 by (intro f64_err) simp_all
  then have e1: "\<bar>x1 - q\<bar> \<le> 1 / 70368744177664" by (simp only: p46)
  have "\<bar>x1 - 1\<bar> < 256" using q e1 by linarith
  then have "\<bar>x2 - (x1 - 1)\<bar> \<le> 2 powi (7 - 53)"
    unfolding x2_def p8 by (intro f64_err) simp_all
  then have e2: "\<bar>x2 - (x1 - 1)\<bar> \<le> 1 / 70368744177664" by (simp only: p46)
  have "\<bar>5 / 100 :: rat\<bar> < 2 powi (- 5 + 1)" by (simp add: power_int_minus_divide)
  then have "\<bar>c - 5 / 100\<bar> \<le> 2 powi (- 5 - 53)"
    unfolding c_def by (intro f64_err) simp_all
  then have ec: "\<bar>c - 5 / 100\<bar> \<le> 1 / 288230376151711744"
    by (simp add: power_int_minus_divide)
  have "\<bar>x2 + c\<bar> < 256" using q e1 e2 ec by linarith
  then have "\<bar>x3 - (x2 + c)\<bar> \<le> 2 powi (7 - 53)"
    unfolding x3_def p8 by (intro f64_err) simp_all
  then have e3: "\<bar>x3 - (x2 + c)\<bar> \<le> 1 / 70368744177664" by (simp only: p46)
  have tot: "\<bar>x3 - (q - 1 + 5 / 100)\<bar> < 1 / 17592186044416"
    using e1 e2 ec e3 by linarith
  define N where "N = 500000000 - 77824 * f"
  define D where "D = 81920 * f"
  have D: "0 < D" using lo by (simp add: D_def)
  have ND: "q - 1 + 5 / 100 = of_int N / of_int D"
    using F by (simp add: q_def N_def D_def F_def field_simps)
  have "(of_int D :: rat) < 17592186044416" using F by (simp add: D_def F_def)
  then have "1 / 17592186044416 < 1 / (of_int D :: rat)"
    using D by (simp add: field_simps)
  then have "\<bar>x3 - (q - 1 + 5 / 100)\<bar> < 1 / of_int D"
    using tot by (rule less_trans [rotated])
  then have "\<bar>x3 - of_int N / of_int D\<bar> < 1 / of_int D"
    by (simp only: ND)
  then have "\<lfloor>x3\<rfloor> = N div D"
    using D prescale_not_integral [of f] by (intro floor_near_fraction) (simp_all add: N_def D_def)
  moreover have "\<lfloor>q - 1 + 5 / 100\<rfloor> = N div D"
    by (simp only: ND floor_divide_of_int_eq)
  ultimately show ?thesis by (simp add: ps q_def F_def prescale_ref_def)
qed

lemma prescale_ref_range:
  assumes "40 \<le> f" "f \<le> 1600"
  shows "2 \<le> prescale_ref f" "prescale_ref f \<le> 151"
proof -
  define F :: rat where "F = of_int f"
  have F: "40 \<le> F" "F \<le> 1600" using assms by (simp_all add: F_def)
  have "2 \<le> (25000000 :: rat) / 4096 / F - 1 + 5 / 100"
    using F by (simp add: field_simps)
  then show "2 \<le> prescale_ref f"
    unfolding prescale_ref_def F_def [symmetric] by (simp add: le_floor_iff)
  have "(25000000 :: rat) / 4096 / F - 1 + 5 / 100 < 152"
    using F by (simp add: field_simps)
  then show "prescale_ref f \<le> 151"
    unfolding prescale_ref_def F_def [symmetric] by (simp add: floor_le_iff)
qed

lemma prescale_ref_1600: "prescale_ref 1600 = 2"
  by (simp add: prescale_ref_def floor_eq_iff)

lemma prescale_byte_exact:
  assumes "40 \<le> f" "f \<le> 1600"
  shows "prescale_byte w f = word_of_int (prescale_ref f)"
proof -
  have ps: "prescale_ps f = of_int (prescale_ref f)"
    using assms by (intro prescale_ps_exact) simp_all
  show ?thesis
    using assms prescale_ref_range [OF assms]
    by (simp add: prescale_byte_def ps math_Floor_def Let_def)
qed

lemma setPWMFreq_healthy:
  assumes "read_err w tr 0x00 = None" "writes_ok w"
  shows "setPWMFreq w freq tr =
    (None, tr @ [ReadReg 0x00] @ spec_prescale_sequence (read_val w tr 0x00) (prescale_byte w freq))"
  using assms
  by (simp add: setPWMFreq_chain writes_ok_def issue_def spec_prescale_sequence_def)

text \<open>
  Claim C1, amended.  For every frequency \<open>f\<close> in \<open>40..1600\<close> the \<^verbatim>\<open>float64\<close> value that
  \<^verbatim>\<open>setPWMFreq\<close> computes is \<open>floor(25000000 / 4096 / f - 1 + 0.05)\<close> taken in exact
  arithmetic, the byte it converts to is that number, and on a bus without failures
  this byte is what the sequence writes to the prescale register \<open>0xFE\<close>.  For
  \<open>f = 1600\<close> the value is 2.
\<close>

theorem prescale_formula:
  assumes "40 \<le> f" "f \<le> 1600"
  shows "prescale_ps f = of_int \<lfloor>(25000000 :: rat) / 4096 / of_int f - 1 + 5 / 100\<rfloor>
       \<and> prescale_byte w f = word_of_int \<lfloor>(25000000 :: rat) / 4096 / of_int f - 1 + 5 / 100\<rfloor>
       \<and> (read_err w tr 0x00 = None \<and> writes_ok w \<longrightarrow>
            setPWMFreq w f tr =
              (None, tr @ [ReadReg 0x00,
                           WriteReg 0x00 ((read_val w tr 0x00 AND 0x7F) OR 0x10),
                           WriteReg 0xFE (word_of_int
                             \<lfloor>(25000000 :: rat) / 4096 / of_int f - 1 + 5 / 100\<rfloor>),
                           WriteReg 0x00 (read_val w tr 0x00),
                           Sleep 5,
                           WriteReg 0x00 (read_val w tr 0x00 OR 0x80)]))
       \<and> prescale_ps 1600 = 2 \<and> prescale_byte w 1600 = 2"
proof -
  have ps: "prescale_ps f = of_int (prescale_ref f)"
    using assms by (intro prescale_ps_exact) simp_all
  have pb: "prescale_byte w f = word_of_int (prescale_ref f)"
    using assms by (rule prescale_byte_exact)
  have "prescale_ps 1600 = of_int (prescale_ref 1600)"
    by (intro prescale_ps_exact) simp_all
  then have ps16: "prescale_ps 1600 = 2" by (simp add: prescale_ref_1600)
  have "prescale_byte w 1600 = word_of_int (prescale_ref 1600)"
    by (intro prescale_byte_exact) simp_all
  then have pb16: "prescale_byte w 1600 = 2" by (simp add: prescale_ref_1600)
  have run: "setPWMFreq w f tr =
      (None, tr @ [ReadReg 0x00] @ spec_prescale_sequence (read_val w tr 0x00) (prescale_byte w f))"
    if "read_err w tr 0x00 = None" "writes_ok w"
    using that by (rule setPWMFreq_healthy)
  show ?thesis
    using ps pb ps16 pb16 run
    by (simp add: prescale_ref_def spec_prescale_sequence_def)
qed

theorem prescale_formula_witness:
  "(40::int) \<le> 40 \<and> (40::int) \<le> 1600
   \<and> prescale_ps 40 = 151
   \<and> prescale_byte healthy 40 = 151
   \<and> read_err healthy [] 0x00 = None \<and> writes_ok healthy
   \<and> setPWMFreq healthy 40 [] =
        (None, [ReadReg 0x00, WriteReg 0x00 0x11, WriteReg 0xFE 151, WriteReg 0x00 0x11, Sleep 5,
                WriteReg 0x00 0x91])"
proof -
  have ok: "writes_ok healthy" by (simp add: writes_ok_def healthy_def)
  have rd: "read_err healthy [] 0x00 = None" "read_val healthy [] 0x00 = 0x11"
    by (simp_all add: healthy_def)
  have fl: "\<lfloor>(388193 :: rat) / 2560\<rfloor> = 151"
    by (simp add: floor_eq_iff)
  show ?thesis
    using ok rd prescale_formula [of 40 healthy "[]"]
    by (simp add: fl)
qed

text \<open>
  Claim C1 as stated ends with "for \<open>f = 1600\<close> the computed prescale value equals 3".
  The computed value is not 3: \<open>25000000 / 4096 / 1600 - 1 + 0.05\<close> is about \<open>2.86\<close>.
\<close>

theorem prescale_1600_is_not_3:
  "prescale_ps 1600 \<noteq> 3 \<and> prescale_byte healthy 1600 \<noteq> 3"
proof -
  have "prescale_ps 1600 = of_int (prescale_ref 1600)"
    by (intro prescale_ps_exact) simp_all
  moreover have "prescale_byte healthy 1600 = word_of_int (prescale_ref 1600)"
    by (intro prescale_byte_exact) simp_all
  ultimately show ?thesis by (simp add: prescale_ref_1600)
qed

lemma initPWM_healthy:
  assumes "writes_ok w" "reads_ok w"
  shows "initPWM w tr =
     (None, tr @ [WriteReg 0x01 0x04, WriteReg 0x00 0x01, Sleep 5, ReadReg 0x00,
                  WriteReg 0x00 (read_val w (tr @ [WriteReg 0x01 0x04, WriteReg 0x00 0x01, Sleep 5]) 0x00
                                 AND NOT 0x10),
                  Sleep 5])"
  using assms
  by (simp add: initPWM_def writes_ok_def reads_ok_def WriteRegister_def ReadRegister_def
      time_Sleep_def consts_defs)

text \<open>
  Claim C9.  When \<^verbatim>\<open>i2c.New\<close> and every bus transaction succeed, \<^verbatim>\<open>Open(addr, bus)\<close>
  followed by \<^verbatim>\<open>Speed(1, 128)\<close> produces exactly this trace, in order: the four
  broadcast writes with all bytes zero; the mode registers' initialisation
  (\<open>MODE2 = OUTDRV\<close>, \<open>MODE1 = ALLCALL\<close>, a pause, \<open>MODE1\<close> read and written back without
  the sleep bit, a pause) and the prescale sequence of \<^verbatim>\<open>setPWMFreq(1600)\<close> (\<open>MODE1\<close> read,
  written with the sleep bit, prescale register \<open>0xFE\<close> written with 2, \<open>MODE1\<close>
  restored, a pause, \<open>MODE1\<close> written with the restart bit); then the four writes to
  the registers \<open>0x26..0x29\<close> of channel 8 with the bytes of \<open>on = 0\<close>, \<open>off = 2048\<close>.
\<close>

theorem open_then_speed:
  assumes "new_err w addr bus = None" "writes_ok w" "reads_ok w"
  shows "let t1 = [NewI2C addr bus,
                   WriteReg 0xFA 0x00, WriteReg 0xFB 0x00, WriteReg 0xFC 0x00, WriteReg 0xFD 0x00,
                   WriteReg 0x01 0x04, WriteReg 0x00 0x01, Sleep 5];
             m = read_val w t1 0x00;
             t2 = t1 @ [ReadReg 0x00, WriteReg 0x00 (m AND NOT 0x10), Sleep 5];
             old = read_val w t2 0x00;
             t3 = t2 @ [ReadReg 0x00, WriteReg 0x00 ((old AND 0x7F) OR 0x10), WriteReg 0xFE 0x02,
                        WriteReg 0x00 old, Sleep 5, WriteReg 0x00 (old OR 0x80)]
         in Open w addr bus [] = (Inr \<lparr>i2c_addr = addr, i2c_bus = bus\<rparr>, t3)
          \<and> Speed w 1 128 t3 =
              (None, t3 @ [WriteReg 0x26 0x00, WriteReg 0x27 0x00, WriteReg 0x28 0x00,
                           WriteReg 0x29 0x08])
          \<and> decode_counter 0x00 0x00 = 0 \<and> decode_counter 0x00 0x08 = 2048"
proof -
  have pb: "prescale_byte w 1600 = 2"
    using prescale_byte_exact [of 1600 w] by (simp add: prescale_ref_1600)
  have rd: "read_err w h 0x00 = None" for h
    using assms(3) by (simp add: reads_ok_def)
  show ?thesis
    using assms(1)
    by (simp add: Open_def init_def setAllPWM_healthy [OF assms(2)]
        initPWM_healthy [OF assms(2,3)] setPWMFreq_healthy [OF rd assms(2)] pb
        spec_broadcast_writes_def spec_prescale_sequence_def Let_def
        Speed_def getMotor_valid setPWM_healthy [OF assms(2)] spec_channel_writes_def
        decode_counter_def)
qed

theorem open_then_speed_witness:
  "new_err healthy 0x60 1 = None \<and> writes_ok healthy \<and> reads_ok healthy
   \<and> Open healthy 0x60 1 [] =
       (Inr \<lparr>i2c_addr = 0x60, i2c_bus = 1\<rparr>,
        [NewI2C 0x60 1,
         WriteReg 0xFA 0x00, WriteReg 0xFB 0x00, WriteReg 0xFC 0x00, WriteReg 0xFD 0x00,
         WriteReg 0x01 0x04, WriteReg 0x00 0x01, Sleep 5,
         ReadReg 0x00, WriteReg 0x00 0x01, Sleep 5,
         ReadReg 0x00, WriteReg 0x00 0x11, WriteReg 0xFE 0x02, WriteReg 0x00 0x11, Sleep 5,
         WriteReg 0x00 0x91])"
proof -
  have ok: "new_err healthy 0x60 1 = None" "writes_ok healthy" "reads_ok healthy"
    by (simp_all add: writes_ok_def reads_ok_def healthy_def)
  have rv: "read_val healthy h r = 0x11" for h r by (simp add: healthy_def)
  show ?thesis
    using ok open_then_speed [OF ok] by (simp add: Let_def rv)
qed

end
